theory Spec2Isabelle
  imports Complex_Main
begin

section \<open>Errors\<close>

text \<open>
  The notebooks are Python 3 over numpy and scipy. Every exception the modelled code can
  raise is a value of \<open>error\<close>; a function that can raise returns \<open>error + 'a\<close> with
  \<open>Inl\<close> for the exception. numpy's float64 numbers are modelled by \<open>real\<close>: rounding
  and overflow of the machine numbers are not part of the model, and of underflow only
  that of the densities \<open>norm.pdf\<close> returns (see \<open>underflow\<close> below).
\<close>

datatype error = ZeroDivisionError | TypeError | IndexError | ValueError

section \<open>The batch generator of the gradient-ascent notebook\<close>

text \<open>
  Python's slice \<open>a[lo:hi]\<close> on a sequence of length \<open>n\<close>: a negative bound counts from the
  end, and every bound is clamped into \<open>0..n\<close>. \<open>None\<close> is an omitted bound.
\<close>

definition slice_bound :: "nat \<Rightarrow> int \<Rightarrow> nat" where
  "slice_bound n i = (if i < 0 then nat (max 0 (int n + i)) else min n (nat i))"

definition py_slice :: "'a list \<Rightarrow> int option \<Rightarrow> int option \<Rightarrow> 'a list" where
  "py_slice xs lo hi =
     (let n = length xs;
          l = (case lo of None \<Rightarrow> 0 | Some i \<Rightarrow> slice_bound n i);
          h = (case hi of None \<Rightarrow> n | Some i \<Rightarrow> slice_bound n i)
      in take (h - l) (drop l xs))"

text \<open>
  \<^verbatim>\<open>
  def data_generator(array, batch_size):
      start = 0  # pointer to where we are in iteration
      while True:
          stop = start + batch_size
          diff = stop - array.shape[0]
          if diff <= 0:
              batch = array[start:stop]
              start += batch_size
          else:
              batch = np.concatenate((array[start:], array[:diff]))
              start = diff
          yield batch
  \<close>
  One turn of the \<open>while True\<close> loop: from the pointer \<open>start\<close> it computes the batch
  that is yielded and the pointer of the next turn. The array is the list of its entries
  along the first axis; \<open>np.concatenate\<close> along that axis is \<open>@\<close>.
\<close>

definition generator_step :: "'a list \<Rightarrow> int \<Rightarrow> int \<Rightarrow> 'a list \<times> int" where
  "generator_step array batch_size start =
     (let stop = start + batch_size;
          diff = stop - int (length array)
      in if diff \<le> 0
         then (py_slice array (Some start) (Some stop), start + batch_size)
         else (py_slice array (Some start) None @ py_slice array None (Some diff), diff))"

text \<open>
  The generator never returns and never raises: it yields one batch per \<open>next\<close>.
  \<open>generator_run array batch_size start n\<close> is the list of the batches yielded by the next
  \<open>n\<close> calls of \<open>next\<close> from pointer \<open>start\<close>, and \<open>data_generator\<close> starts at pointer 0.
\<close>

fun generator_run :: "'a list \<Rightarrow> int \<Rightarrow> int \<Rightarrow> nat \<Rightarrow> 'a list list" where
  "generator_run array batch_size start 0 = []"
| "generator_run array batch_size start (Suc n) =
     (case generator_step array batch_size start of
        (batch, start') \<Rightarrow> batch # generator_run array batch_size start' n)"

definition data_generator :: "'a list \<Rightarrow> int \<Rightarrow> nat \<Rightarrow> 'a list list" where
  "data_generator array batch_size n = generator_run array batch_size 0 n"

text \<open>The \<open>n\<close> entries of \<open>xs\<close> read cyclically from index \<open>s\<close>.\<close>

definition cyclic_from :: "'a list \<Rightarrow> nat \<Rightarrow> nat \<Rightarrow> 'a list" where
  "cyclic_from xs s n = map (\<lambda>j. xs ! ((s + j) mod length xs)) [0..<n]"

section \<open>Gradients of the Gaussian log-likelihood\<close>

text \<open>
  \<^verbatim>\<open>
  def calculate_gradient(N, _data, _mu, _tau):
      partial_mu = _tau * np.sum(_data - _mu)
      partial_tau = .5 * len(_data) / _tau - .5 * np.sum(np.square(_data - _mu))
      euclidean_gradient = N / _data.shape[0] * np.array([partial_mu, partial_tau])
      partial_mu = partial_mu / _tau
      partial_tau = partial_tau * 2 * _tau * _tau
      natural_gradient = np.array([partial_mu, partial_tau])
      return natural_gradient, euclidean_gradient
  \<close>
  \<open>calculate_gradient\<close> of the gradient-ascent notebook. \<open>_data\<close> is a one-dimensional
  array, so \<open>len(_data)\<close> and \<open>_data.shape[0]\<close> are both its length and \<open>np.sum\<close> is the sum
  of its entries. The two arrays returned are pairs (component for \<open>mu\<close>, component for
  \<open>tau\<close>), natural gradient first. The statements are evaluated in the source's order:
  dividing by a Python float \<open>_tau\<close> that is zero raises in the second line (a numpy
  float64 zero would give an infinity and a warning instead), and dividing the Python
  number \<open>N\<close> by the length of an empty batch raises in the third.
\<close>

definition calculate_gradient ::
  "real \<Rightarrow> real list \<Rightarrow> real \<Rightarrow> real \<Rightarrow> error + ((real \<times> real) \<times> (real \<times> real))" where
  "calculate_gradient N data mu tau =
     (let partial_mu = tau * sum_list (map (\<lambda>d. d - mu) data) in
      if tau = 0 then Inl ZeroDivisionError
      else
        let partial_tau = 0.5 * real (length data) / tau
                          - 0.5 * sum_list (map (\<lambda>d. (d - mu)\<^sup>2) data) in
        if length data = 0 then Inl ZeroDivisionError
        else
          let euclidean_gradient =
                (N / real (length data) * partial_mu, N / real (length data) * partial_tau);
              partial_mu' = partial_mu / tau;
              partial_tau' = partial_tau * 2 * tau * tau;
              natural_gradient = (partial_mu', partial_tau')
          in Inr (natural_gradient, euclidean_gradient))"

text \<open>
  The inverse Fisher matrix named in the source's comment, \<open>diag(1/tau, 2 * tau**2)\<close>,
  applied to a vector of two components.
\<close>

definition inverse_fisher :: "real \<Rightarrow> real \<times> real \<Rightarrow> real \<times> real" where
  "inverse_fisher tau v = (1 / tau * fst v, 2 * tau\<^sup>2 * snd v)"

definition scale_vec :: "real \<Rightarrow> real \<times> real \<Rightarrow> real \<times> real" where
  "scale_vec c v = (c * fst v, c * snd v)"

section \<open>numpy numbers\<close>

text \<open>
  A float64 value is a finite number, one of the two infinities, or NaN. The finite
  numbers are modelled by \<open>real\<close>; the sign of a zero is not modelled (a non-zero number
  divided by zero is taken with the sign of the numerator). The operations are the
  elementwise ones the density notebook uses: \<open>*\<close>, \<open>+\<close>, \<open>/\<close>, \<open>np.log\<close> and
  \<open>np.maximum\<close>, which returns NaN when either argument is NaN.
\<close>

datatype npfloat = Fin real | PInf | MInf | NaN

fun fneg :: "npfloat \<Rightarrow> npfloat" where
  "fneg (Fin a) = Fin (- a)"
| "fneg PInf = MInf"
| "fneg MInf = PInf"
| "fneg NaN = NaN"

fun fmul :: "npfloat \<Rightarrow> npfloat \<Rightarrow> npfloat" where
  "fmul (Fin a) (Fin b) = Fin (a * b)"
| "fmul NaN _ = NaN"
| "fmul _ NaN = NaN"
| "fmul (Fin a) y = (if a = 0 then NaN else if 0 < a then y else fneg y)"
| "fmul x (Fin b) = (if b = 0 then NaN else if 0 < b then x else fneg x)"
| "fmul PInf y = y"
| "fmul MInf y = fneg y"

fun fadd :: "npfloat \<Rightarrow> npfloat \<Rightarrow> npfloat" where
  "fadd (Fin a) (Fin b) = Fin (a + b)"
| "fadd NaN _ = NaN"
| "fadd _ NaN = NaN"
| "fadd (Fin a) y = y"
| "fadd x (Fin b) = x"
| "fadd PInf PInf = PInf"
| "fadd MInf MInf = MInf"
| "fadd PInf MInf = NaN"
| "fadd MInf PInf = NaN"

fun fdiv :: "npfloat \<Rightarrow> npfloat \<Rightarrow> npfloat" where
  "fdiv (Fin a) (Fin b) =
     (if b \<noteq> 0 then Fin (a / b)
      else if a = 0 then NaN else if 0 < a then PInf else MInf)"
| "fdiv NaN _ = NaN"
| "fdiv _ NaN = NaN"
| "fdiv (Fin a) y = Fin 0"
| "fdiv x (Fin b) = (if 0 \<le> b then x else fneg x)"
| "fdiv x y = NaN"

fun flog :: "npfloat \<Rightarrow> npfloat" where
  "flog (Fin a) = (if 0 < a then Fin (ln a) else if a = 0 then MInf else NaN)"
| "flog PInf = PInf"
| "flog MInf = NaN"
| "flog NaN = NaN"

fun fmaximum :: "npfloat \<Rightarrow> npfloat \<Rightarrow> npfloat" where
  "fmaximum (Fin a) (Fin b) = Fin (max a b)"
| "fmaximum NaN _ = NaN"
| "fmaximum _ NaN = NaN"
| "fmaximum PInf _ = PInf"
| "fmaximum _ PInf = PInf"
| "fmaximum MInf y = y"
| "fmaximum x MInf = x"

text \<open>\<open>np.sum\<close> of a one-dimensional array; the sum of no entries is 0.\<close>

definition np_sum :: "npfloat list \<Rightarrow> npfloat" where
  "np_sum ys = foldr fadd ys (Fin 0)"

text \<open>
  An elementwise binary operation on two one-dimensional arrays, with numpy's
  broadcasting: equal lengths go entry by entry, an array of one entry is stretched, and
  any other pair of lengths raises ValueError.
\<close>

definition broadcast2 ::
  "(npfloat \<Rightarrow> npfloat \<Rightarrow> npfloat) \<Rightarrow> npfloat list \<Rightarrow> npfloat list \<Rightarrow> error + npfloat list" where
  "broadcast2 oper as bs =
     (if length as = length bs then Inr (map2 oper as bs)
      else if length as = 1 then Inr (map (oper (hd as)) bs)
      else if length bs = 1 then Inr (map (\<lambda>a. oper a (hd bs)) as)
      else Inl ValueError)"

text \<open>
  \<open>np.arange(start, stop, step)\<close> for float arguments: \<open>ceil((stop - start) / step)\<close>
  points \<open>start + i * step\<close>, none when that number is not positive. A zero step raises
  (ZeroDivisionError for an integer step, ValueError for a float one; the model returns
  ValueError).
\<close>

definition np_arange :: "real \<Rightarrow> real \<Rightarrow> real \<Rightarrow> error + real list" where
  "np_arange start stop step =
     (if step = 0 then Inl ValueError
      else Inr (map (\<lambda>i. start + real i * step) [0..<nat \<lceil>(stop - start) / step\<rceil>]))"

section \<open>The density evaluators of the projection notebook\<close>

text \<open>
  \<open>scipy.stats.norm.pdf(x, loc, scale)\<close> at finite arguments: the standard normal density
  \<open>exp(-y**2/2) / sqrt(2*pi)\<close> at \<open>y = (x - loc) / scale\<close>, divided by \<open>scale\<close>. scipy checks
  its arguments: where \<open>scale > 0\<close> fails, the result is NaN and nothing is raised.

  Far from \<open>loc\<close> the float64 result is exactly 0.0: a number of magnitude at most
  \<open>2**-1075\<close>, half the smallest positive float64, rounds to zero. \<open>underflow\<close> is that
  rounding, applied to the density that \<open>norm.pdf\<close> returns. For a scale \<open>\<ge> 1\<close> (the
  wide component of \<open>p_distribution_pdf\<close> has 3) this is where the float result becomes
  0.0; for a smaller scale (its narrow component has 0.5) the float result is 0.0
  already a little earlier, when an intermediate result underflows. Overflow, which
  needs a scale next to the smallest float64, is not modelled.
\<close>

definition normal_density :: "real \<Rightarrow> real \<Rightarrow> real \<Rightarrow> real" where
  "normal_density x loc scale = exp (- ((x - loc) / scale)\<^sup>2 / 2) / sqrt (2 * pi) / scale"

definition underflow :: "real \<Rightarrow> real" where
  "underflow r = (if \<bar>r\<bar> \<le> 1 / 2 ^ 1075 then 0 else r)"

definition norm_pdf :: "real \<Rightarrow> real \<Rightarrow> real \<Rightarrow> npfloat" where
  "norm_pdf x loc scale =
     (if 0 < scale then Fin (underflow (normal_density x loc scale)) else NaN)"

text \<open>
  The keyword arguments \<open>**kwargs\<close> are a dictionary from names to numbers. A density
  evaluator takes the array of points and the keyword arguments and returns an array or
  raises.
  \<^verbatim>\<open>
  def p_distribution_pdf(x, **kwargs):
      w = .1
      mean1 = 1
      stddev1 = .5
      mean2 = 10
      stddev2 = 3
      return w * norm.pdf(x, loc=mean1, scale=stddev1) + (1-w) * norm.pdf(x, loc=mean2, scale=stddev2)
  \<close>
\<close>

type_synonym kwargs = "string \<rightharpoonup> real"

type_synonym evaluator = "real list \<Rightarrow> kwargs \<Rightarrow> error + npfloat list"

definition p_distribution_pdf :: evaluator where
  "p_distribution_pdf x kwargs =
     (let w = 1 / 10; mean1 = 1; stddev1 = 1 / 2; mean2 = 10; stddev2 = 3
      in Inr (map (\<lambda>xi. fadd (fmul (Fin w) (norm_pdf xi mean1 stddev1))
                              (fmul (Fin (1 - w)) (norm_pdf xi mean2 stddev2))) x))"

text \<open>
  \<^verbatim>\<open>
  def q_distribution_pdf(x, **kwargs):
      loc = kwargs.get('loc')
      scale = kwargs.get('scale')
      return np.maximum(1e-6, norm.pdf(x=x, loc=loc, scale=scale))
  \<close>
  \<open>kwargs.get\<close> gives \<open>None\<close> for a missing name, and \<open>norm.pdf\<close> raises TypeError on
  \<open>loc=None\<close> or \<open>scale=None\<close>.
\<close>

definition q_distribution_pdf :: evaluator where
  "q_distribution_pdf x kwargs =
     (case kwargs ''loc'' of
        None \<Rightarrow> Inl TypeError
      | Some loc \<Rightarrow>
          (case kwargs ''scale'' of
             None \<Rightarrow> Inl TypeError
           | Some scale \<Rightarrow>
               Inr (map (\<lambda>xi. fmaximum (Fin (1 / 10 ^ 6)) (norm_pdf xi loc scale)) x)))"

section \<open>The divergence estimator and the projection driver\<close>

text \<open>
  Modelled from the spec: the argument of \<open>np.sum\<close> in
  \<open>calculate_KL_for_given_parameters\<close>, which the source leaves as the placeholder
  \<open>??????\<close> for the student. The spec (and the docstring above the placeholder) give it as
  \<open>f(x_i) * log(f(x_i) / g(x_i))\<close>, with the parameters sent to both evaluators as
  \<open>loc\<close> and \<open>scale\<close>.
\<close>

definition kl_integrand ::
  "evaluator \<Rightarrow> evaluator \<Rightarrow> real list \<Rightarrow> real \<Rightarrow> real \<Rightarrow> error + npfloat list" where
  "kl_integrand f g x_val mu sigma =
     (let kwargs = [''loc'' \<mapsto> mu, ''scale'' \<mapsto> sigma] in
      case f x_val kwargs of
        Inl e \<Rightarrow> Inl e
      | Inr fx \<Rightarrow>
          (case g x_val kwargs of
             Inl e \<Rightarrow> Inl e
           | Inr gx \<Rightarrow>
               (case broadcast2 fdiv fx gx of
                  Inl e \<Rightarrow> Inl e
                | Inr ratio \<Rightarrow> broadcast2 fmul fx (map flog ratio))))"

text \<open>
  \<^verbatim>\<open>
  def optimize_parameters(f, g, eps):
      def calculate_KL_for_given_parameters(parameters):
          mu = parameters[0]
          sigma = parameters[1]
          x_val = np.arange(-25, +25, eps)
          answer = eps * np.sum(   ??????     )
          return answer
      optimum = minimize(calculate_KL_for_given_parameters,
                         bounds=((None, None), (1E-2, None)),
                         x0=[0, 5])
      return optimum['x']
  \<close>
  The objective built inside \<open>optimize_parameters\<close>; \<open>f\<close>, \<open>g\<close> and \<open>eps\<close> are the
  variables of the enclosing scope. Reading \<open>parameters[1]\<close> of a shorter vector raises
  IndexError.
\<close>

definition calculate_KL_for_given_parameters ::
  "evaluator \<Rightarrow> evaluator \<Rightarrow> real \<Rightarrow> real list \<Rightarrow> error + npfloat" where
  "calculate_KL_for_given_parameters f g eps parameters =
     (if length parameters < 2 then Inl IndexError
      else
        let mu = parameters ! 0; sigma = parameters ! 1 in
        case np_arange (- 25) 25 eps of
          Inl e \<Rightarrow> Inl e
        | Inr x_val \<Rightarrow>
            (case kl_integrand f g x_val mu sigma of
               Inl e \<Rightarrow> Inl e
             | Inr terms \<Rightarrow> Inr (fmul (Fin eps) (np_sum terms))))"

text \<open>
  \<open>scipy.optimize.minimize\<close> is not part of the repository: it is a parameter of the
  model. It takes the objective, the bounds (one pair of optional lower and upper bound
  per parameter) and the starting point, and returns a result with the slot \<open>x\<close> or
  raises. The calls made to it are recorded in a log that is passed through.
\<close>

type_synonym objective = "real list \<Rightarrow> error + npfloat"

type_synonym bounds = "(real option \<times> real option) list"

record optimize_result =
  res_x :: "real list"
  res_fun :: npfloat

type_synonym minimizer = "objective \<Rightarrow> bounds \<Rightarrow> real list \<Rightarrow> error + optimize_result"

record minimize_call =
  call_fun :: objective
  call_bounds :: bounds
  call_x0 :: "real list"

definition optimize_parameters ::
  "minimizer \<Rightarrow> evaluator \<Rightarrow> evaluator \<Rightarrow> real \<Rightarrow> minimize_call list
     \<Rightarrow> (error + real list) \<times> minimize_call list" where
  "optimize_parameters minimize f g eps calls =
     (let objective = calculate_KL_for_given_parameters f g eps;
          bnds = [(None, None), (Some (1 / 100), None)];
          x0 = [0, 5];
          optimum = minimize objective bnds x0;
          calls' = calls @ [\<lparr>call_fun = objective, call_bounds = bnds, call_x0 = x0\<rparr>]
      in (case optimum of Inl e \<Rightarrow> Inl e | Inr r \<Rightarrow> Inr (res_x r), calls'))"

section \<open>Notions used to state the properties\<close>

text \<open>
  The numbers that the two evaluators compute at a point: the mixture of
  \<open>p_distribution_pdf\<close> with its constants, each component as \<open>norm.pdf\<close> returns it,
  and the floored Gaussian of \<open>q_distribution_pdf\<close> for a positive scale (a density that
  underflows is below the floor, so the floored value is the same with or without it).
\<close>

definition mixture_density :: "real \<Rightarrow> real" where
  "mixture_density x =
     1 / 10 * underflow (normal_density x 1 (1 / 2))
     + 9 / 10 * underflow (normal_density x 10 3)"

definition floored_normal_density :: "real \<Rightarrow> real \<Rightarrow> real \<Rightarrow> real" where
  "floored_normal_density loc scale x = max (1 / 10 ^ 6) (normal_density x loc scale)"

text \<open>
  Predicates on one entry of a returned array: a number that is not below \<open>c\<close> (plus
  infinity counts), a finite number not below \<open>c\<close>, a finite number other than zero,
  a finite positive number, a finite number that is not negative.
\<close>

definition at_least :: "real \<Rightarrow> npfloat \<Rightarrow> bool" where
  "at_least c y = (case y of Fin v \<Rightarrow> c \<le> v | PInf \<Rightarrow> True | MInf \<Rightarrow> False | NaN \<Rightarrow> False)"

definition finite_at_least :: "real \<Rightarrow> npfloat \<Rightarrow> bool" where
  "finite_at_least c y = (case y of Fin v \<Rightarrow> c \<le> v | PInf \<Rightarrow> False | MInf \<Rightarrow> False | NaN \<Rightarrow> False)"

definition nonzero_finite :: "npfloat \<Rightarrow> bool" where
  "nonzero_finite y = (case y of Fin v \<Rightarrow> v \<noteq> 0 | PInf \<Rightarrow> False | MInf \<Rightarrow> False | NaN \<Rightarrow> False)"

definition positive_finite :: "npfloat \<Rightarrow> bool" where
  "positive_finite y = (case y of Fin v \<Rightarrow> 0 < v | PInf \<Rightarrow> False | MInf \<Rightarrow> False | NaN \<Rightarrow> False)"

definition nonnegative_finite :: "npfloat \<Rightarrow> bool" where
  "nonnegative_finite y = (case y of Fin v \<Rightarrow> 0 \<le> v | PInf \<Rightarrow> False | MInf \<Rightarrow> False | NaN \<Rightarrow> False)"

text \<open>A point of the integration domain \<open>[-25, 25]\<close>.\<close>

definition in_domain :: "real \<Rightarrow> bool" where
  "in_domain x = (- 25 \<le> x \<and> x \<le> 25)"

text \<open>
  An evaluator's result is an array of \<open>n\<close> entries that all satisfy \<open>P\<close>; a raised error
  does not qualify.
\<close>

definition returns_all :: "(npfloat \<Rightarrow> bool) \<Rightarrow> nat \<Rightarrow> error + npfloat list \<Rightarrow> bool" where
  "returns_all P n r = (case r of Inl e \<Rightarrow> False | Inr ys \<Rightarrow> length ys = n \<and> list_all P ys)"

text \<open>
  The arguments of \<open>np.log\<close> in the integrand, \<open>f(x_i) / g(x_i)\<close>, are all finite and
  positive.
\<close>

definition log_arguments_positive :: "error + npfloat list \<Rightarrow> error + npfloat list \<Rightarrow> bool" where
  "log_arguments_positive rf rg =
     (case rf of
        Inl e \<Rightarrow> False
      | Inr fx \<Rightarrow>
          (case rg of
             Inl e \<Rightarrow> False
           | Inr gx \<Rightarrow>
               (case broadcast2 fdiv fx gx of
                  Inl e \<Rightarrow> False
                | Inr ratio \<Rightarrow> list_all positive_finite ratio)))"

text \<open>
  The integration grid in the words of the spec: points \<open>eps\<close> apart starting at \<open>-25\<close>,
  as many as fit below \<open>+25\<close>.
\<close>

definition grid_size :: "real \<Rightarrow> nat" where
  "grid_size eps = nat \<lceil>50 / eps\<rceil>"

definition grid_point :: "real \<Rightarrow> nat \<Rightarrow> real" where
  "grid_point eps i = - 25 + real i * eps"







section \<open>Properties of the batch generator\<close>

lemma step_batch:
  assumes "s \<le> length xs" "1 \<le> b" "b \<le> length xs"
  shows "fst (generator_step xs (int b) (int s)) = cyclic_from xs s b"
proof (cases "s + b \<le> length xs")
  case True
  then have "fst (generator_step xs (int b) (int s)) = take b (drop s xs)"
    using assms by (simp add: generator_step_def py_slice_def slice_bound_def Let_def flip: of_nat_add)
  also have "\<dots> = cyclic_from xs s b"
    using True assms by (intro nth_equalityI) (auto simp: cyclic_from_def)
  finally show ?thesis .
next
  case False
  let ?d = "s + b - length xs"
  from False have "fst (generator_step xs (int b) (int s)) = drop s xs @ take ?d xs"
    using assms by (simp add: generator_step_def py_slice_def slice_bound_def Let_def nat_diff_distrib' flip: of_nat_add)
  also have "\<dots> = cyclic_from xs s b"
  proof (intro nth_equalityI)
    show "length (drop s xs @ take ?d xs) = length (cyclic_from xs s b)"
      using False assms by (simp add: cyclic_from_def)
  next
    fix i assume "i < length (drop s xs @ take ?d xs)"
    then have ib: "i < b" using False assms by simp
    show "(drop s xs @ take ?d xs) ! i = cyclic_from xs s b ! i"
    proof (cases "i < length xs - s")
      case True
      then show ?thesis using ib assms by (simp add: nth_append cyclic_from_def)
    next
      case f: False
      then have ge: "length xs \<le> s + i" using assms by simp
      have "s + i - length xs < length xs" using ib assms by simp
      then have "(s + i) mod length xs = s + i - length xs"
        using ge by (simp add: le_mod_geq)
      moreover have "s + i - length xs = i - (length xs - s)" using assms by simp
      ultimately have "(s + i) mod length xs = i - (length xs - s)" by simp
      then show ?thesis using f ib assms False by (simp add: nth_append cyclic_from_def)
    qed
  qed
  finally show ?thesis .
qed

lemma step_start:
  assumes "s \<le> length xs" "1 \<le> b" "b \<le> length xs"
  shows "\<exists>s'. snd (generator_step xs (int b) (int s)) = int s' \<and> s' \<le> length xs
           \<and> s' mod length xs = (s + b) mod length xs"
proof (cases "s + b \<le> length xs")
  case True
  then have "snd (generator_step xs (int b) (int s)) = int (s + b)"
    by (simp add: generator_step_def Let_def)
  then show ?thesis using True by blast
next
  case False
  then have "snd (generator_step xs (int b) (int s)) = int (s + b - length xs)"
    by (simp add: generator_step_def Let_def)
  moreover have "s + b - length xs \<le> length xs" using assms by simp
  moreover have "(s + b - length xs) mod length xs = (s + b) mod length xs"
    using False by (simp add: le_mod_geq)
  ultimately show ?thesis by blast
qed

lemma cyclic_from_mod: "cyclic_from xs (s mod length xs) n = cyclic_from xs s n"
  by (simp add: cyclic_from_def mod_add_left_eq)

lemma cyclic_from_add: "cyclic_from xs s (m + n) = cyclic_from xs s m @ cyclic_from xs (s + m) n"
  unfolding cyclic_from_def
  by (intro nth_equalityI) (auto simp: nth_append add.assoc)

lemma run_cyclic:
  assumes "1 \<le> b" "b \<le> length xs"
  shows "s \<le> length xs \<Longrightarrow>
     concat (generator_run xs (int b) (int s) n) = cyclic_from xs s (n * b)
     \<and> (\<forall>batch \<in> set (generator_run xs (int b) (int s) n). length batch = b)"
proof (induction n arbitrary: s)
  case 0
  then show ?case by (simp add: cyclic_from_def)
next
  case (Suc n)
  obtain s' where s': "snd (generator_step xs (int b) (int s)) = int s'" "s' \<le> length xs"
      "s' mod length xs = (s + b) mod length xs"
    using step_start[OF Suc.prems assms] by blast
  have bt: "fst (generator_step xs (int b) (int s)) = cyclic_from xs s b"
    using step_batch[OF Suc.prems assms] .
  have run: "generator_run xs (int b) (int s) (Suc n) =
      cyclic_from xs s b # generator_run xs (int b) (int s') n"
    using s'(1) bt by (simp add: case_prod_beta)
  have "cyclic_from xs s' (n * b) = cyclic_from xs (s + b) (n * b)"
    using cyclic_from_mod[of xs s'] cyclic_from_mod[of xs "s + b"] s'(3) by simp
  then show ?case
    using Suc.IH[OF s'(2)] run cyclic_from_add[of xs s b "n * b"]
    by (simp add: cyclic_from_def)
qed

text \<open>
  Claim C9. For an array of length \<open>L \<ge> 1\<close> and a batch size \<open>b\<close> with \<open>1 \<le> b \<le> L\<close>,
  every one of the first \<open>n\<close> batches yielded by \<open>data_generator\<close> has exactly \<open>b\<close>
  entries, and the batches put end to end are the entries of the array read cyclically
  in order from the first one: entry \<open>j\<close> of the concatenation is entry \<open>j mod L\<close> of the
  array.
\<close>

theorem data_generator_cyclic_batches:
  assumes "1 \<le> b" and "b \<le> length xs"
  shows "length (data_generator xs (int b) n) = n
       \<and> (\<forall>batch \<in> set (data_generator xs (int b) n). length batch = b)
       \<and> concat (data_generator xs (int b) n)
           = map (\<lambda>j. xs ! (j mod length xs)) [0..<n * b]"
proof -
  have "concat (generator_run xs (int b) (int 0) n) = cyclic_from xs 0 (n * b)
     \<and> (\<forall>batch \<in> set (generator_run xs (int b) (int 0) n). length batch = b)"
    using run_cyclic[OF assms, of 0 n] by simp
  moreover have "length (generator_run xs (int b) s n) = n" for s
    by (induction n arbitrary: s) (simp_all add: case_prod_beta)
  ultimately show ?thesis
    by (simp add: data_generator_def cyclic_from_def)
qed

theorem data_generator_cyclic_batches_witness:
  "(1::nat) \<le> 3 \<and> (3::nat) \<le> length [10, 20, 30, 40, 50 :: nat]
   \<and> data_generator [10, 20, 30, 40, 50 :: nat] (int 3) 4
       = [[10, 20, 30], [40, 50, 10], [20, 30, 40], [50, 10, 20]]
   \<and> (length (data_generator [10, 20, 30, 40, 50 :: nat] (int 3) 4) = 4
       \<and> map length (data_generator [10, 20, 30, 40, 50 :: nat] (int 3) 4) = [3, 3, 3, 3]
       \<and> concat (data_generator [10, 20, 30, 40, 50 :: nat] (int 3) 4)
           = map (\<lambda>j. [10, 20, 30, 40, 50] ! (j mod length [10, 20, 30, 40, 50 :: nat]))
               [0..<4 * 3])"
proof -
  have h1: "(1::nat) \<le> 3" by simp
  have h2: "(3::nat) \<le> length [10, 20, 30, 40, 50 :: nat]" by simp
  have run: "data_generator [10, 20, 30, 40, 50 :: nat] (int 3) 4
       = [[10, 20, 30], [40, 50, 10], [20, 30, 40], [50, 10, 20]]"
    by code_simp
  have lens: "map length (data_generator [10, 20, 30, 40, 50 :: nat] (int 3) 4) = [3, 3, 3, 3]"
    unfolding run by simp
  show ?thesis
    using h1 h2 run lens data_generator_cyclic_batches [OF h1 h2, of 4] by blast
qed

section \<open>Properties of the gradients\<close>

text \<open>
  Claim C10. For \<open>N \<noteq> 0\<close>, \<open>tau > 0\<close>, any \<open>mu\<close> and a non-empty batch,
  \<open>calculate_gradient\<close> returns (it does not raise) and its two results are related by
  natural gradient = \<open>diag(1/tau, 2 * tau\<^sup>2)\<close> applied componentwise to
  \<open>(len(data) / N)\<close> times the Euclidean gradient.
\<close>

theorem calculate_gradient_natural_euclidean:
  assumes "N \<noteq> 0" and "0 < tau" and "data \<noteq> []"
  shows "\<exists>natural_gradient euclidean_gradient.
           calculate_gradient N data mu tau = Inr (natural_gradient, euclidean_gradient)
         \<and> natural_gradient
             = inverse_fisher tau (scale_vec (real (length data) / N) euclidean_gradient)"
  using assms
  by (simp add: calculate_gradient_def Let_def inverse_fisher_def scale_vec_def
      power2_eq_square field_simps)

theorem calculate_gradient_natural_euclidean_witness:
  "(100::real) \<noteq> 0 \<and> (0::real) < 2 \<and> [1, 3 :: real] \<noteq> []
   \<and> calculate_gradient 100 [1, 3] 1 2 = Inr ((2, -12), (200, -75))
   \<and> ((2, -12) :: real \<times> real)
       = inverse_fisher 2 (scale_vec (real (length [1, 3 :: real]) / 100) (200, -75))"
  using calculate_gradient_natural_euclidean [of 100 2 "[1, 3]" 1]
  by (simp add: calculate_gradient_def Let_def inverse_fisher_def scale_vec_def)

section \<open>Bounds on the normal density\<close>

lemma exp_one_ge_two: "2 \<le> exp (1::real)"
  using exp_ge_add_one_self[of "1::real"] by simp

lemma exp_ge_two_power:
  assumes "real n \<le> x"
  shows "2 ^ n \<le> exp x"
proof -
  have "(2::real) ^ n \<le> exp 1 ^ n"
    using exp_one_ge_two by (intro power_mono) simp_all
  also have "\<dots> = exp (real n)"
    using exp_of_nat_mult[of n "1::real"] by simp
  also have "\<dots> \<le> exp x" using assms by simp
  finally show ?thesis .
qed

lemma exp_neg_le_two_power:
  assumes "real n \<le> x"
  shows "exp (- x) \<le> 1 / 2 ^ n"
proof -
  have "exp (- x) = 1 / exp x" by (simp add: exp_minus divide_inverse)
  also have "\<dots> \<le> 1 / 2 ^ n"
    using exp_ge_two_power[OF assms] by (intro divide_left_mono) simp_all
  finally show ?thesis .
qed

lemma sqrt_two_pi_ge_one: "1 \<le> sqrt (2 * pi)"
  using pi_ge_two by (simp add: real_le_rsqrt)

lemma sqrt_two_pi_pos: "0 < sqrt (2 * pi)"
  using sqrt_two_pi_ge_one by linarith

lemma normal_density_pos: "0 < scale \<Longrightarrow> 0 < normal_density x loc scale"
  by (simp add: normal_density_def)

lemma normal_density_le:
  assumes "0 < scale" "real n \<le> ((x - loc) / scale)\<^sup>2 / 2"
  shows "normal_density x loc scale \<le> 1 / 2 ^ n / scale"
proof -
  have "exp (- (((x - loc) / scale)\<^sup>2 / 2)) \<le> 1 / 2 ^ n"
    using exp_neg_le_two_power[OF assms(2)] .
  then have "exp (- ((x - loc) / scale)\<^sup>2 / 2) / sqrt (2 * pi) \<le> 1 / 2 ^ n / 1"
    using sqrt_two_pi_ge_one by (intro frac_le) simp_all
  then have "exp (- ((x - loc) / scale)\<^sup>2 / 2) / sqrt (2 * pi) / scale \<le> 1 / 2 ^ n / 1 / scale"
    using assms(1) by (intro divide_right_mono) simp_all
  then show ?thesis
    unfolding normal_density_def by simp
qed

lemma sqrt_two_pi_le_three: "sqrt (2 * pi) \<le> 3"
proof -
  have "2 * pi \<le> 9" using pi_less_4 by simp
  then have "sqrt (2 * pi) \<le> sqrt 9" by (simp only: real_sqrt_le_iff)
  also have "sqrt 9 = (3::real)" using real_sqrt_abs[of 3] by simp
  finally show ?thesis .
qed

lemma exp_le_three_power:
  assumes "x \<le> real n"
  shows "exp x \<le> 3 ^ n"
proof -
  have "exp x \<le> exp (real n)" using assms by simp
  also have "\<dots> = exp 1 ^ n" using exp_of_nat_mult[of n "1::real"] by simp
  also have "\<dots> \<le> 3 ^ n" using exp_le by (intro power_mono) simp_all
  finally show ?thesis .
qed

lemma normal_density_ge:
  assumes "0 < scale" "((x - loc) / scale)\<^sup>2 / 2 \<le> real n"
  shows "1 / 3 ^ n / 3 / scale \<le> normal_density x loc scale"
proof -
  define y where "y = ((x - loc) / scale)\<^sup>2 / 2"
  have "exp y \<le> 3 ^ n"
    using exp_le_three_power[OF assms(2)] by (simp add: y_def)
  then have "inverse ((3::real) ^ n) \<le> inverse (exp y)"
    by (intro le_imp_inverse_le) simp_all
  then have "1 / 3 ^ n \<le> exp (- y)"
    by (simp add: exp_minus divide_inverse)
  moreover have "0 \<le> exp (- y)" by simp
  ultimately have "1 / 3 ^ n / 3 \<le> exp (- y) / sqrt (2 * pi)"
    using sqrt_two_pi_le_three sqrt_two_pi_pos by (intro frac_le)
  then have "1 / 3 ^ n / 3 \<le> exp (- ((x - loc) / scale)\<^sup>2 / 2) / sqrt (2 * pi)"
    by (simp add: y_def)
  then have "1 / 3 ^ n / 3 / scale \<le> exp (- ((x - loc) / scale)\<^sup>2 / 2) / sqrt (2 * pi) / scale"
    using assms(1) by (intro divide_right_mono) simp_all
  then show ?thesis unfolding normal_density_def .
qed

section \<open>Properties of the density evaluators\<close>

lemma underflow_nonneg: "0 \<le> r \<Longrightarrow> 0 \<le> underflow r"
  by (simp add: underflow_def)

lemma underflow_le: "0 \<le> r \<Longrightarrow> underflow r \<le> r"
  by (simp add: underflow_def)

lemma underflow_id: "1 / 2 ^ 1075 < r \<Longrightarrow> underflow r = r"
  by (simp add: underflow_def)

lemma underflow_zero: "0 \<le> r \<Longrightarrow> r \<le> 1 / 2 ^ 1075 \<Longrightarrow> underflow r = 0"
  by (simp add: underflow_def)

lemma max_floor_underflow:
  assumes "0 \<le> r"
  shows "max (1 / 10 ^ 6) (underflow r) = max (1 / 10 ^ 6) r"
proof (cases "r \<le> 1 / 2 ^ 1075")
  case True
  have "(1::real) / 2 ^ 1075 \<le> 1 / 10 ^ 6" by simp
  with True have "r \<le> 1 / 10 ^ 6" by linarith
  then show ?thesis using True assms by (simp add: underflow_def max_def)
next
  case False
  then show ?thesis using assms by (simp add: underflow_def)
qed

lemma normal_density_nonneg: "0 < scale \<Longrightarrow> 0 \<le> normal_density x loc scale"
  using normal_density_pos[of scale x loc] by simp

lemma q_pointwise:
  "q_distribution_pdf xs [''loc'' \<mapsto> loc, ''scale'' \<mapsto> scale] =
     Inr (map (\<lambda>x. if 0 < scale then Fin (max (1 / 10 ^ 6) (normal_density x loc scale)) else NaN) xs)"
proof (cases "0 < scale")
  case True
  have "fmaximum (Fin (1 / 10 ^ 6)) (norm_pdf x loc scale)
      = Fin (max (1 / 10 ^ 6) (normal_density x loc scale))" for x
    using max_floor_underflow[OF normal_density_nonneg[OF True], of x loc]
    by (simp only: norm_pdf_def True if_True fmaximum.simps)
  then show ?thesis
    using True by (simp only: q_distribution_pdf_def map_upd_Some_unfold fun_upd_apply)
      (simp del: fmaximum.simps)
next
  case False
  then show ?thesis by (simp add: q_distribution_pdf_def norm_pdf_def)
qed

lemma p_mixture:
  "p_distribution_pdf xs kw = Inr (map (\<lambda>x. Fin (mixture_density x)) xs)"
  by (simp add: p_distribution_pdf_def norm_pdf_def Let_def mixture_density_def)

lemma q_floored:
  "0 < scale \<Longrightarrow> q_distribution_pdf xs [''loc'' \<mapsto> loc, ''scale'' \<mapsto> scale] =
     Inr (map (\<lambda>x. Fin (floored_normal_density loc scale x)) xs)"
  by (simp add: q_pointwise floored_normal_density_def)

lemma mixture_density_nonneg: "0 \<le> mixture_density x"
proof -
  have "0 \<le> underflow (normal_density x 1 (1 / 2))" "0 \<le> underflow (normal_density x 10 3)"
    by (simp_all add: underflow_nonneg normal_density_nonneg)
  then show ?thesis by (simp add: mixture_density_def)
qed

lemma mixture_density_le:
  "mixture_density x \<le> 1 / 10 * normal_density x 1 (1 / 2) + 9 / 10 * normal_density x 10 3"
proof -
  have "underflow (normal_density x 1 (1 / 2)) \<le> normal_density x 1 (1 / 2)"
    "underflow (normal_density x 10 3) \<le> normal_density x 10 3"
    by (simp_all add: underflow_le normal_density_nonneg)
  then show ?thesis by (simp add: mixture_density_def)
qed

lemma floored_normal_density_pos: "0 < floored_normal_density loc scale x"
  by (simp add: floored_normal_density_def less_max_iff_disj)

lemma square_le_in_domain:
  assumes "in_domain x"
  shows "((x - 10) / 3)\<^sup>2 / 2 \<le> real 69"
proof -
  have "\<bar>x - 10\<bar> \<le> 35" using assms by (simp add: in_domain_def abs_le_iff)
  then have "(x - 10)\<^sup>2 \<le> 35\<^sup>2"
    by (metis abs_ge_zero power2_abs power_mono)
  then show ?thesis by (simp add: power_divide)
qed

lemma wide_component_in_domain:
  assumes "in_domain x"
  shows "underflow (normal_density x 10 3) = normal_density x 10 3"
    and "1 / 3 ^ 69 / 3 / 3 \<le> normal_density x 10 3"
proof -
  show low: "1 / 3 ^ 69 / 3 / 3 \<le> normal_density x 10 3"
    using square_le_in_domain[OF assms] by (intro normal_density_ge) simp_all
  have "(1::real) / 2 ^ 1075 < 1 / 3 ^ 69 / 3 / 3" by simp
  then have "1 / 2 ^ 1075 < normal_density x 10 3" using low by (rule less_le_trans)
  then show "underflow (normal_density x 10 3) = normal_density x 10 3"
    by (rule underflow_id)
qed

lemma mixture_density_pos:
  assumes "in_domain x"
  shows "0 < mixture_density x"
proof -
  have "0 \<le> underflow (normal_density x 1 (1 / 2))"
    by (simp add: underflow_nonneg normal_density_nonneg)
  moreover have "0 < underflow (normal_density x 10 3)"
    using wide_component_in_domain(1)[OF assms] by (simp add: normal_density_pos)
  ultimately show ?thesis by (simp add: mixture_density_def)
qed

lemma mixture_far_left_small: "mixture_density (- 25) < 1 / 2 ^ 67"
proof -
  have a: "normal_density (- 25) 1 (1 / 2) \<le> 1 / 2 ^ 68 / (1 / 2)"
    by (intro normal_density_le) (simp_all add: power2_eq_square)
  have b: "normal_density (- 25) 10 3 \<le> 1 / 2 ^ 68 / 3"
    by (intro normal_density_le) (simp_all add: power2_eq_square)
  have "1 / 10 * normal_density (- 25) 1 (1 / 2) + 9 / 10 * normal_density (- 25) 10 3 < 1 / 2 ^ 67"
    using a b by simp
  then show ?thesis using mixture_density_le[of "- 25"] by (rule le_less_trans[rotated])
qed

lemma mixture_underflows: "mixture_density (- 200) = 0"
proof -
  have a: "normal_density (- 200) 1 (1 / 2) \<le> 1 / 2 ^ 1080 / (1 / 2)"
    by (intro normal_density_le) (simp_all add: power2_eq_square)
  have b: "normal_density (- 200) 10 3 \<le> 1 / 2 ^ 1080 / 3"
    by (intro normal_density_le) (simp_all add: power2_eq_square)
  have "normal_density (- 200) 1 (1 / 2) \<le> 1 / 2 ^ 1075" using a by simp
  then have 1: "underflow (normal_density (- 200) 1 (1 / 2)) = 0"
    by (intro underflow_zero) (simp_all add: normal_density_nonneg)
  have "normal_density (- 200) 10 3 \<le> 1 / 2 ^ 1075" using b by simp
  then have 2: "underflow (normal_density (- 200) 10 3) = 0"
    by (intro underflow_zero) (simp_all add: normal_density_nonneg)
  show ?thesis by (simp add: mixture_density_def 1 2)
qed

text \<open>
  Claim C2, as stated, fails. \<open>p_distribution_pdf\<close> has no floor: at the point \<open>-25\<close> its
  entry is below \<open>1e-6\<close>, and at the point \<open>-200\<close> both components underflow and its
  entry is exactly 0, so that there neither \<open>p/q\<close> nor \<open>q/p\<close> is a finite positive
  argument for the logarithm. \<open>q_distribution_pdf\<close> with a scale that is not positive
  returns NaN.
\<close>

theorem evaluators_not_floored:
  "p_distribution_pdf [- 25] Map.empty = Inr [Fin (mixture_density (- 25))]
   \<and> mixture_density (- 25) < 1 / 10 ^ 6
   \<and> \<not> returns_all (at_least (1 / 10 ^ 6)) 1 (p_distribution_pdf [- 25] Map.empty)
   \<and> p_distribution_pdf [- 200] Map.empty = Inr [Fin 0]
   \<and> \<not> log_arguments_positive (p_distribution_pdf [- 200] Map.empty)
         (q_distribution_pdf [- 200] [''loc'' \<mapsto> 0, ''scale'' \<mapsto> 5])
   \<and> \<not> log_arguments_positive (q_distribution_pdf [- 200] [''loc'' \<mapsto> 0, ''scale'' \<mapsto> 5])
         (p_distribution_pdf [- 200] Map.empty)
   \<and> \<not> returns_all (at_least (1 / 10 ^ 6)) 1
         (q_distribution_pdf [0] [''loc'' \<mapsto> 0, ''scale'' \<mapsto> - 1])"
proof -
  have "(1::real) / 2 ^ 67 < 1 / 10 ^ 6" by simp
  with mixture_far_left_small have small: "mixture_density (- 25) < 1 / 10 ^ 6"
    by (rule less_trans)
  have p25: "p_distribution_pdf [- 25] Map.empty = Inr [Fin (mixture_density (- 25))]"
    by (simp add: p_mixture)
  have p200: "p_distribution_pdf [- 200] Map.empty = Inr [Fin 0]"
    by (simp add: p_mixture mixture_underflows)
  have q200: "q_distribution_pdf [- 200] [''loc'' \<mapsto> 0, ''scale'' \<mapsto> 5]
      = Inr [Fin (floored_normal_density 0 5 (- 200))]"
    by (simp add: q_floored)
  have qpos: "0 < floored_normal_density 0 5 (- 200)"
    by (rule floored_normal_density_pos)
  have qneg: "q_distribution_pdf [0] [''loc'' \<mapsto> 0, ''scale'' \<mapsto> - 1] = Inr [NaN]"
    by (simp add: q_pointwise)
  have c3: "\<not> returns_all (at_least (1 / 10 ^ 6)) 1 (p_distribution_pdf [- 25] Map.empty)"
    using small by (simp add: p25 returns_all_def at_least_def)
  have c5: "\<not> log_arguments_positive (p_distribution_pdf [- 200] Map.empty)
         (q_distribution_pdf [- 200] [''loc'' \<mapsto> 0, ''scale'' \<mapsto> 5])"
    using qpos by (simp add: p200 q200 log_arguments_positive_def broadcast2_def positive_finite_def)
  have c6: "\<not> log_arguments_positive (q_distribution_pdf [- 200] [''loc'' \<mapsto> 0, ''scale'' \<mapsto> 5])
         (p_distribution_pdf [- 200] Map.empty)"
    using qpos by (simp add: p200 q200 log_arguments_positive_def broadcast2_def positive_finite_def)
  have c7: "\<not> returns_all (at_least (1 / 10 ^ 6)) 1
         (q_distribution_pdf [0] [''loc'' \<mapsto> 0, ''scale'' \<mapsto> - 1])"
    by (simp add: qneg returns_all_def at_least_def)
  from p25 small c3 p200 c5 c6 c7 show ?thesis by blast
qed

text \<open>
  Claim C2, amended. For every vector of points and every scale \<open>> 0\<close>,
  \<open>q_distribution_pdf\<close> returns a vector of the same length whose entries are at least
  \<open>1e-6\<close>, and \<open>p_distribution_pdf\<close> (whatever the keyword arguments) returns a vector
  of the same length whose entries are finite and not negative; it is not floored. Where
  the divergence estimator evaluates them, at points of the domain \<open>[-25, 25]\<close> with a
  scale within the optimizer's bound \<open>\<ge> 1e-2\<close>, the entries of \<open>p\<close> are strictly positive,
  those of \<open>q\<close> are finite, and the argument of the logarithm, \<open>p/q\<close> or \<open>q/p\<close>, is
  finite and positive.
\<close>

theorem density_evaluators_on_domain:
  assumes "0 < scale"
  shows "returns_all (at_least (1 / 10 ^ 6)) (length xs)
           (q_distribution_pdf xs [''loc'' \<mapsto> loc, ''scale'' \<mapsto> scale])
       \<and> returns_all nonnegative_finite (length xs) (p_distribution_pdf xs kw)
       \<and> (list_all in_domain xs \<and> 1 / 100 \<le> scale \<longrightarrow>
            returns_all positive_finite (length xs) (p_distribution_pdf xs kw)
          \<and> returns_all (finite_at_least (1 / 10 ^ 6)) (length xs)
               (q_distribution_pdf xs [''loc'' \<mapsto> loc, ''scale'' \<mapsto> scale])
          \<and> log_arguments_positive (p_distribution_pdf xs kw)
               (q_distribution_pdf xs [''loc'' \<mapsto> loc, ''scale'' \<mapsto> scale])
          \<and> log_arguments_positive
               (q_distribution_pdf xs [''loc'' \<mapsto> loc, ''scale'' \<mapsto> scale])
               (p_distribution_pdf xs kw))"
proof -
  let ?q = "floored_normal_density loc scale"
  have q: "q_distribution_pdf xs [''loc'' \<mapsto> loc, ''scale'' \<mapsto> scale]
      = Inr (map (\<lambda>x. Fin (?q x)) xs)"
    using assms by (rule q_floored)
  have p: "p_distribution_pdf xs kw = Inr (map (\<lambda>x. Fin (mixture_density x)) xs)"
    by (rule p_mixture)
  have qfloor: "1 / 10 ^ 6 \<le> ?q x" for x
    by (simp add: floored_normal_density_def)
  have qpos: "0 < ?q x" for x by (rule floored_normal_density_pos)
  have 1: "returns_all (at_least (1 / 10 ^ 6)) (length xs)
           (q_distribution_pdf xs [''loc'' \<mapsto> loc, ''scale'' \<mapsto> scale])"
    unfolding q using qfloor by (simp add: returns_all_def at_least_def list_all_iff)
  have 2: "returns_all nonnegative_finite (length xs) (p_distribution_pdf xs kw)"
    unfolding p
    by (simp add: returns_all_def nonnegative_finite_def list_all_iff mixture_density_nonneg)
  have 3: "returns_all positive_finite (length xs) (p_distribution_pdf xs kw)
          \<and> returns_all (finite_at_least (1 / 10 ^ 6)) (length xs)
               (q_distribution_pdf xs [''loc'' \<mapsto> loc, ''scale'' \<mapsto> scale])
          \<and> log_arguments_positive (p_distribution_pdf xs kw)
               (q_distribution_pdf xs [''loc'' \<mapsto> loc, ''scale'' \<mapsto> scale])
          \<and> log_arguments_positive
               (q_distribution_pdf xs [''loc'' \<mapsto> loc, ''scale'' \<mapsto> scale])
               (p_distribution_pdf xs kw)"
    if dom: "list_all in_domain xs"
  proof -
    have ppos: "0 < mixture_density x" if "x \<in> set xs" for x
      using dom that by (intro mixture_density_pos) (simp add: list_all_iff)
    have pq: "positive_finite (fdiv (Fin (mixture_density x)) (Fin (?q x)))" if "x \<in> set xs" for x
      using ppos[OF that] qpos[of x] by (simp add: positive_finite_def)
    have qp: "positive_finite (fdiv (Fin (?q x)) (Fin (mixture_density x)))" if "x \<in> set xs" for x
      using ppos[OF that] qpos[of x] by (simp add: positive_finite_def)
    have a: "returns_all positive_finite (length xs) (p_distribution_pdf xs kw)"
      unfolding p using ppos by (simp add: returns_all_def positive_finite_def list_all_iff)
    have b: "returns_all (finite_at_least (1 / 10 ^ 6)) (length xs)
               (q_distribution_pdf xs [''loc'' \<mapsto> loc, ''scale'' \<mapsto> scale])"
      unfolding q using qfloor by (simp add: returns_all_def finite_at_least_def list_all_iff)
    have c: "log_arguments_positive (p_distribution_pdf xs kw)
               (q_distribution_pdf xs [''loc'' \<mapsto> loc, ''scale'' \<mapsto> scale])"
      unfolding p q using pq
      by (simp add: log_arguments_positive_def broadcast2_def map2_map_map list_all_iff
          del: fdiv.simps)
    have d: "log_arguments_positive
               (q_distribution_pdf xs [''loc'' \<mapsto> loc, ''scale'' \<mapsto> scale])
               (p_distribution_pdf xs kw)"
      unfolding p q using qp
      by (simp add: log_arguments_positive_def broadcast2_def map2_map_map list_all_iff
          del: fdiv.simps)
    from a b c d show ?thesis by blast
  qed
  from 1 2 3 show ?thesis by blast
qed

theorem density_evaluators_on_domain_witness:
  "(0::real) < 5 \<and> list_all in_domain [- 25, 0] \<and> (1::real) / 100 \<le> 5
   \<and> returns_all (at_least (1 / 10 ^ 6)) (length [- 25, 0 :: real])
         (q_distribution_pdf [- 25, 0] [''loc'' \<mapsto> 0, ''scale'' \<mapsto> 5])
   \<and> returns_all positive_finite (length [- 25, 0 :: real])
         (p_distribution_pdf [- 25, 0] Map.empty)
   \<and> log_arguments_positive (p_distribution_pdf [- 25, 0] Map.empty)
         (q_distribution_pdf [- 25, 0] [''loc'' \<mapsto> 0, ''scale'' \<mapsto> 5])
   \<and> log_arguments_positive (q_distribution_pdf [- 25, 0] [''loc'' \<mapsto> 0, ''scale'' \<mapsto> 5])
         (p_distribution_pdf [- 25, 0] Map.empty)"
proof -
  have h1: "(0::real) < 5" by simp
  have h2: "list_all in_domain [- 25, 0]" by (simp add: in_domain_def)
  have h3: "(1::real) / 100 \<le> 5" by simp
  show ?thesis
    using h1 h2 h3 density_evaluators_on_domain [OF h1, of "[- 25, 0]" 0 Map.empty] by blast
qed



text \<open>
  Claim C8. The mixture density ignores its keyword arguments: on the same points, any two
  sets of keyword arguments give the same result.
\<close>

theorem p_distribution_pdf_ignores_kwargs:
  "p_distribution_pdf x kwargs = p_distribution_pdf x kwargs'"
  by (simp add: p_distribution_pdf_def)

section \<open>Properties of the divergence estimator\<close>

lemma np_sum_Fin: "np_sum (map (\<lambda>x. Fin (h x)) xs) = Fin (sum_list (map h xs))"
  by (induction xs) (simp_all add: np_sum_def)

lemma np_arange_grid:
  "eps \<noteq> 0 \<Longrightarrow> np_arange (- 25) 25 eps = Inr (map (grid_point eps) [0..<grid_size eps])"
  by (simp add: np_arange_def grid_point_def grid_size_def)

lemma kl_integrand_pointwise:
  assumes "f xs [''loc'' \<mapsto> mu, ''scale'' \<mapsto> sigma] = Inr (map (\<lambda>x. Fin (fr x)) xs)"
    and "g xs [''loc'' \<mapsto> mu, ''scale'' \<mapsto> sigma] = Inr (map (\<lambda>x. Fin (gr x)) xs)"
    and "\<And>x. x \<in> set xs \<Longrightarrow> 0 < fr x \<and> 0 < gr x"
  shows "kl_integrand f g xs mu sigma = Inr (map (\<lambda>x. Fin (fr x * ln (fr x / gr x))) xs)"
proof -
  have ratio: "broadcast2 fdiv (map (\<lambda>x. Fin (fr x)) xs) (map (\<lambda>x. Fin (gr x)) xs)
      = Inr (map (\<lambda>x. Fin (fr x / gr x)) xs)"
  proof -
    have "fdiv (Fin (fr x)) (Fin (gr x)) = Fin (fr x / gr x)" if "x \<in> set xs" for x
      using assms(3)[OF that] by simp
    then show ?thesis by (simp add: broadcast2_def map2_map_map)
  qed
  have logs: "map flog (map (\<lambda>x. Fin (fr x / gr x)) xs) = map (\<lambda>x. Fin (ln (fr x / gr x))) xs"
  proof -
    have "flog (Fin (fr x / gr x)) = Fin (ln (fr x / gr x))" if "x \<in> set xs" for x
      using assms(3)[OF that] by simp
    then show ?thesis by simp
  qed
  have prod: "broadcast2 fmul (map (\<lambda>x. Fin (fr x)) xs) (map (\<lambda>x. Fin (ln (fr x / gr x))) xs)
      = Inr (map (\<lambda>x. Fin (fr x * ln (fr x / gr x))) xs)"
    by (simp add: broadcast2_def map2_map_map)
  show ?thesis
    unfolding kl_integrand_def Let_def assms(1,2) by (simp add: ratio logs prod del: map_map)
qed

lemma sum_list_grid: "sum_list (map h (map (grid_point eps) [0..<n])) = (\<Sum>i<n. h (grid_point eps i))"
  by (simp add: interv_sum_list_conv_sum_set_nat comp_def atLeast0LessThan)

lemma calculate_KL_pointwise:
  assumes "eps \<noteq> 0"
    and "f (map (grid_point eps) [0..<grid_size eps]) [''loc'' \<mapsto> mu, ''scale'' \<mapsto> sigma]
           = Inr (map (\<lambda>x. Fin (fr x)) (map (grid_point eps) [0..<grid_size eps]))"
    and "g (map (grid_point eps) [0..<grid_size eps]) [''loc'' \<mapsto> mu, ''scale'' \<mapsto> sigma]
           = Inr (map (\<lambda>x. Fin (gr x)) (map (grid_point eps) [0..<grid_size eps]))"
    and "\<And>i. i < grid_size eps \<Longrightarrow> 0 < fr (grid_point eps i) \<and> 0 < gr (grid_point eps i)"
  shows "calculate_KL_for_given_parameters f g eps [mu, sigma]
         = Inr (Fin (eps * (\<Sum>i<grid_size eps.
                  fr (grid_point eps i) * ln (fr (grid_point eps i) / gr (grid_point eps i)))))"
proof -
  let ?xs = "map (grid_point eps) [0..<grid_size eps]"
  have pos: "\<And>x. x \<in> set ?xs \<Longrightarrow> 0 < fr x \<and> 0 < gr x"
    using assms(4) by auto
  have "kl_integrand f g ?xs mu sigma = Inr (map (\<lambda>x. Fin (fr x * ln (fr x / gr x))) ?xs)"
    using kl_integrand_pointwise[of f ?xs mu sigma fr g gr] assms(2,3) pos by blast
  then show ?thesis
    unfolding calculate_KL_for_given_parameters_def
    by (simp add: np_arange_grid[OF assms(1)] np_sum_Fin sum_list_grid del: map_map)
qed

lemma grid_point_in_domain:
  assumes "0 < eps" "i < grid_size eps"
  shows "- 25 \<le> grid_point eps i \<and> grid_point eps i < 25"
proof -
  have "int i < \<lceil>50 / eps\<rceil>" using assms(2) by (simp add: grid_size_def)
  then have "real i < 50 / eps" by (simp add: less_ceiling_iff)
  then have "real i * eps < 50" using assms(1) by (simp add: pos_less_divide_eq)
  moreover have "0 \<le> real i * eps" using assms(1) by simp
  ultimately show ?thesis by (simp add: grid_point_def)
qed

lemma in_domain_grid:
  assumes "0 < eps" "i < grid_size eps"
  shows "in_domain (grid_point eps i)"
  using grid_point_in_domain[OF assms] by (simp add: in_domain_def)

lemma grid_reaches_end:
  assumes "0 < eps"
  shows "25 \<le> grid_point eps (grid_size eps)"
proof -
  have "50 / eps \<le> real_of_int \<lceil>50 / eps\<rceil>" by (rule le_of_int_ceiling)
  also have "\<dots> \<le> real (nat \<lceil>50 / eps\<rceil>)" by simp
  finally have "50 / eps \<le> real (grid_size eps)"
    by (simp add: grid_size_def)
  then have "50 / eps * eps \<le> real (grid_size eps) * eps"
    using assms by (intro mult_right_mono) simp_all
  then have "50 \<le> real (grid_size eps) * eps"
    using assms by simp
  then show ?thesis by (simp add: grid_point_def)
qed

lemma grid_size_25: "grid_size 25 = 2"
  by (simp add: grid_size_def)

text \<open>
  Claim C1. For a step \<open>eps > 0\<close> and evaluators \<open>f\<close>, \<open>g\<close> that compute positive
  densities \<open>fr\<close>, \<open>gr\<close> at the grid points, the objective at \<open>[mu, sigma]\<close> returns
  \<open>eps\<close> times the sum over the grid points \<open>x_i\<close> of
  \<open>fr(x_i) * ln(fr(x_i) / gr(x_i))\<close>. The grid that \<open>np.arange\<close> builds starts at
  \<open>-25\<close>, its points are \<open>eps\<close> apart, all lie in \<open>[-25, 25)\<close>, and the next point after
  the last is at or beyond \<open>25\<close>: the cells of width \<open>eps\<close> cover the domain.
\<close>

theorem calculate_KL_riemann_sum:
  assumes "0 < eps"
    and "f (map (grid_point eps) [0..<grid_size eps]) [''loc'' \<mapsto> mu, ''scale'' \<mapsto> sigma]
           = Inr (map (\<lambda>x. Fin (fr x)) (map (grid_point eps) [0..<grid_size eps]))"
    and "g (map (grid_point eps) [0..<grid_size eps]) [''loc'' \<mapsto> mu, ''scale'' \<mapsto> sigma]
           = Inr (map (\<lambda>x. Fin (gr x)) (map (grid_point eps) [0..<grid_size eps]))"
    and "\<forall>i<grid_size eps. 0 < fr (grid_point eps i) \<and> 0 < gr (grid_point eps i)"
  shows "np_arange (- 25) 25 eps = Inr (map (grid_point eps) [0..<grid_size eps])
       \<and> calculate_KL_for_given_parameters f g eps [mu, sigma]
         = Inr (Fin (eps * (\<Sum>i<grid_size eps.
                  fr (grid_point eps i) * ln (fr (grid_point eps i) / gr (grid_point eps i)))))
       \<and> grid_point eps 0 = - 25
       \<and> (\<forall>i. grid_point eps (Suc i) - grid_point eps i = eps)
       \<and> (\<forall>i<grid_size eps. - 25 \<le> grid_point eps i \<and> grid_point eps i < 25)
       \<and> 25 \<le> grid_point eps (grid_size eps)"
proof -
  have ne: "eps \<noteq> 0" using assms(1) by simp
  have kl: "calculate_KL_for_given_parameters f g eps [mu, sigma]
         = Inr (Fin (eps * (\<Sum>i<grid_size eps.
                  fr (grid_point eps i) * ln (fr (grid_point eps i) / gr (grid_point eps i)))))"
    using calculate_KL_pointwise[of eps f mu sigma fr g gr] ne assms(2,3,4) by blast
  have step: "grid_point eps (Suc i) - grid_point eps i = eps" for i
    by (simp add: grid_point_def algebra_simps)
  show ?thesis
    using np_arange_grid[OF ne] kl step grid_point_in_domain[OF assms(1)]
      grid_reaches_end[OF assms(1)]
    by (simp add: grid_point_def)
qed

theorem calculate_KL_riemann_sum_witness:
  "(0::real) < 25 \<and> grid_size 25 = 2
   \<and> np_arange (- 25) 25 25 = Inr [- 25, 0]
   \<and> calculate_KL_for_given_parameters p_distribution_pdf q_distribution_pdf 25 [0, 5]
     = Inr (Fin (25 * (mixture_density (- 25)
                         * ln (mixture_density (- 25) / floored_normal_density 0 5 (- 25))
                      + mixture_density 0
                         * ln (mixture_density 0 / floored_normal_density 0 5 0))))"
proof -
  have h1: "(0::real) < 25" by simp
  have h2: "p_distribution_pdf (map (grid_point 25) [0..<grid_size 25]) [''loc'' \<mapsto> 0, ''scale'' \<mapsto> 5]
           = Inr (map (\<lambda>x. Fin (mixture_density x)) (map (grid_point 25) [0..<grid_size 25]))"
    by (rule p_mixture)
  have h3: "q_distribution_pdf (map (grid_point 25) [0..<grid_size 25]) [''loc'' \<mapsto> 0, ''scale'' \<mapsto> 5]
           = Inr (map (\<lambda>x. Fin (floored_normal_density 0 5 x)) (map (grid_point 25) [0..<grid_size 25]))"
    by (rule q_floored) simp
  have h4: "\<forall>i<grid_size 25. 0 < mixture_density (grid_point 25 i)
                \<and> 0 < floored_normal_density 0 5 (grid_point 25 i)"
    using in_domain_grid[OF h1] by (simp add: mixture_density_pos floored_normal_density_pos)
  have two: "[0..<2] = [0, Suc 0]" by (simp add: upt_rec numeral_2_eq_2)
  have sum2: "(\<Sum>i<2. h i) = h 0 + h (Suc 0)" for h :: "nat \<Rightarrow> real"
    by (simp add: numeral_2_eq_2)
  show ?thesis
    using calculate_KL_riemann_sum [of 25 p_distribution_pdf 0 5 mixture_density
        q_distribution_pdf "floored_normal_density 0 5"] h1 h2 h3 h4
    by (simp add: grid_size_25 two sum2 grid_point_def)
qed

lemma nonzero_finite_cases:
  assumes "nonzero_finite y"
  obtains a where "y = Fin a" "a \<noteq> 0"
  using assms by (cases y) (simp_all add: nonzero_finite_def)

lemma self_ratio_term:
  assumes "nonzero_finite y"
  shows "fmul y (flog (fdiv y y)) = Fin 0"
  using assms by (elim nonzero_finite_cases) simp

lemma kl_integrand_same:
  assumes "f xs [''loc'' \<mapsto> mu, ''scale'' \<mapsto> sigma] = Inr ys"
    and "list_all nonzero_finite ys"
  shows "kl_integrand f f xs mu sigma = Inr (map (\<lambda>y. Fin 0) ys)"
proof -
  have ratio: "broadcast2 fdiv ys ys = Inr (map (\<lambda>y. fdiv y y) ys)"
    by (simp add: broadcast2_def zip_same_conv_map)
  have prod: "broadcast2 fmul ys (map flog (map (\<lambda>y. fdiv y y) ys))
      = Inr (map (\<lambda>y. fmul y (flog (fdiv y y))) ys)"
    by (simp add: broadcast2_def zip_map2 zip_same_conv_map)
  have zero: "map (\<lambda>y. fmul y (flog (fdiv y y))) ys = map (\<lambda>y. Fin 0) ys"
    using assms(2) by (simp add: list_all_iff self_ratio_term)
  show ?thesis
    unfolding kl_integrand_def Let_def assms(1)
    by (simp add: ratio prod zero del: map_map)
qed

text \<open>
  Claim C6. With the same evaluator on both sides and a step \<open>eps > 0\<close>, the estimate is
  exactly 0 whenever the evaluator returns finite non-zero entries on the grid: every
  term is \<open>f(x_i) * log 1\<close>. The discrepancy from 0 is therefore nil for every step.
\<close>

theorem calculate_KL_same_density:
  assumes "0 < eps"
    and "np_arange (- 25) 25 eps = Inr x_val"
    and "f x_val [''loc'' \<mapsto> mu, ''scale'' \<mapsto> sigma] = Inr ys"
    and "list_all nonzero_finite ys"
  shows "calculate_KL_for_given_parameters f f eps [mu, sigma] = Inr (Fin 0)"
proof -
  have "kl_integrand f f x_val mu sigma = Inr (map (\<lambda>y. Fin 0) ys)"
    using kl_integrand_same[where f = f and xs = x_val and ys = ys] assms(3,4) by blast
  moreover have "np_sum (map (\<lambda>y. Fin 0) ys) = Fin 0"
    using np_sum_Fin[of "\<lambda>y. 0" ys] by simp
  ultimately show ?thesis
    unfolding calculate_KL_for_given_parameters_def by (simp add: assms(2))
qed

theorem calculate_KL_same_density_witness:
  "(0::real) < 25
   \<and> np_arange (- 25) 25 25 = Inr [- 25, 0]
   \<and> p_distribution_pdf [- 25, 0] [''loc'' \<mapsto> 0, ''scale'' \<mapsto> 5]
       = Inr [Fin (mixture_density (- 25)), Fin (mixture_density 0)]
   \<and> list_all nonzero_finite [Fin (mixture_density (- 25)), Fin (mixture_density 0)]
   \<and> calculate_KL_for_given_parameters p_distribution_pdf p_distribution_pdf 25 [0, 5]
       = Inr (Fin 0)"
proof -
  have h1: "(0::real) < 25" by simp
  have two: "[0..<2] = [0, Suc 0]" by (simp add: upt_rec numeral_2_eq_2)
  have h2: "np_arange (- 25) 25 25 = Inr [- 25, 0]"
    by (simp add: np_arange_def two)
  have h3: "p_distribution_pdf [- 25, 0] [''loc'' \<mapsto> 0, ''scale'' \<mapsto> 5]
       = Inr [Fin (mixture_density (- 25)), Fin (mixture_density 0)]"
    by (simp add: p_mixture)
  have ne: "mixture_density x \<noteq> 0" if "in_domain x" for x
    using mixture_density_pos[OF that] by simp
  have h4: "list_all nonzero_finite [Fin (mixture_density (- 25)), Fin (mixture_density 0)]"
    by (simp add: nonzero_finite_def ne in_domain_def)
  show ?thesis
    using h1 h2 h3 h4
      calculate_KL_same_density [where eps = 25 and x_val = "[- 25, 0]"
        and f = p_distribution_pdf and mu = 0 and sigma = 5
        and ys = "[Fin (mixture_density (- 25)), Fin (mixture_density 0)]"]
    by blast
qed

section \<open>Halving the step\<close>







































section \<open>Properties of the projection driver\<close>

text \<open>
  Claim C4. Whatever the evaluators and the step, \<open>optimize_parameters\<close> adds exactly
  one call of the minimizer to the log: on the objective, with no bound on the mean, the
  lower bound \<open>1e-2\<close> and no upper bound on the scale, and the starting point
  \<open>[0, 5]\<close>. It returns the slot \<open>x\<close> of what that call returns, or the error it raises.
\<close>

theorem optimize_parameters_single_call:
  "optimize_parameters minimize f g eps calls =
     (case minimize (calculate_KL_for_given_parameters f g eps)
             [(None, None), (Some (1 / 100), None)] [0, 5] of
        Inl e \<Rightarrow> Inl e
      | Inr r \<Rightarrow> Inr (res_x r),
      calls @ [\<lparr>call_fun = calculate_KL_for_given_parameters f g eps,
                call_bounds = [(None, None), (Some (1 / 100), None)],
                call_x0 = [0, 5]\<rparr>])"
  by (simp add: optimize_parameters_def Let_def)

end
